theory Spec2Isabelle
  imports Main "HOL-Library.Word"
begin

section \<open>Platform types\<close>

text \<open>
  The two headers are Arduino code. \<^verbatim>\<open>unsigned long\<close> is a 32-bit unsigned integer on
  the Arduino targets: addition and subtraction wrap around modulo \<open>2 ^ 32\<close>, and the
  comparison \<open>>\<close> is the unsigned one, which is the order of \<^typ>\<open>32 word\<close>.
  The clock \<^verbatim>\<open>millis()\<close> and the pin level \<^verbatim>\<open>digitalRead(m_pin)\<close> are
  inputs of the environment: every function that reads one of them takes the value read
  as an argument.
\<close>

type_synonym ulong = "32 word"

definition LOW :: int where
  "LOW = 0"

definition HIGH :: int where
  "HIGH = 1"

text \<open>The implicit conversion of C++ from \<^verbatim>\<open>int\<close> to \<^verbatim>\<open>bool\<close>.\<close>

definition to_bool :: "int \<Rightarrow> bool" where
  "to_bool v = (v \<noteq> 0)"

section \<open>StateToggleTimer.h\<close>

record StateToggleTimer =
  m_bIsOn :: bool
  m_bPreviousState :: bool
  m_bHasStarted :: bool
  m_duration :: ulong
  m_timer :: ulong

text \<open>The constructor; \<open>millis\<close> is the value \<^verbatim>\<open>millis()\<close> returns in it.\<close>

definition StateToggleTimer_new :: "ulong \<Rightarrow> ulong \<Rightarrow> StateToggleTimer" where
  "StateToggleTimer_new duration millis =
     \<lparr> m_bIsOn = False,
       m_bPreviousState = False,
       m_bHasStarted = False,
       m_duration = duration,
       m_timer = millis \<rparr>"

definition IsOn :: "StateToggleTimer \<Rightarrow> bool" where
  "IsOn t = m_bIsOn t"

definition HasStarted :: "StateToggleTimer \<Rightarrow> bool" where
  "HasStarted t = m_bHasStarted t"

definition SetDuration :: "ulong \<Rightarrow> StateToggleTimer \<Rightarrow> StateToggleTimer" where
  "SetDuration duration t = t\<lparr> m_duration := duration \<rparr>"

definition Start :: "ulong \<Rightarrow> StateToggleTimer \<Rightarrow> StateToggleTimer" where
  "Start millis t = t\<lparr> m_bIsOn := True, m_bHasStarted := True, m_timer := millis \<rparr>"

definition Stop :: "StateToggleTimer \<Rightarrow> StateToggleTimer" where
  "Stop t = t\<lparr> m_bIsOn := True, m_bHasStarted := False \<rparr>"

definition Update :: "ulong \<Rightarrow> StateToggleTimer \<Rightarrow> StateToggleTimer" where
  "Update now t =
     (if m_bHasStarted t then
        (if (now - m_timer t) > m_duration t
         then t\<lparr> m_timer := now, m_bIsOn := \<not> m_bIsOn t \<rparr>
         else t)
      else t\<lparr> m_bIsOn := True \<rparr>)"

text \<open>The result is the pair of the value returned and the timer after the call.\<close>

definition HasStateChanged :: "StateToggleTimer \<Rightarrow> bool \<times> StateToggleTimer" where
  "HasStateChanged t =
     (let bChanged = \<not> (m_bPreviousState t = m_bIsOn t)
      in (bChanged, t\<lparr> m_bPreviousState := m_bIsOn t \<rparr>))"

text \<open>A run of polling calls, each \<open>Update\<close> with the time it is given.\<close>

fun Updates :: "ulong list \<Rightarrow> StateToggleTimer \<Rightarrow> StateToggleTimer" where
  "Updates [] t = t"
| "Updates (now # nows) t = Updates nows (Update now t)"

section \<open>Button.h\<close>

definition debounceDelay :: ulong where
  "debounceDelay = 50"

definition longPressDelay :: ulong where
  "longPressDelay = 1000"

definition bIsPressed :: bool where
  "bIsPressed = to_bool LOW"

record Button =
  m_pin :: int
  lastStateChangeTime :: ulong
  lastState :: bool
  m_bIsPressed :: bool
  m_bWasPressed :: bool
  m_bWasLongPressed :: bool
  m_bReset :: bool

text \<open>
  The constructor. It assigns every field but \<^verbatim>\<open>m_bReset\<close>, whose value is therefore
  whatever the storage of the object holds: the argument \<open>reset0\<close>.
\<close>

definition Button_new :: "int \<Rightarrow> ulong \<Rightarrow> bool \<Rightarrow> Button" where
  "Button_new pin millis reset0 =
     \<lparr> m_pin = pin,
       lastStateChangeTime = millis,
       lastState = (\<not> bIsPressed),
       m_bIsPressed = False,
       m_bWasPressed = False,
       m_bWasLongPressed = False,
       m_bReset = reset0 \<rparr>"

definition Reset :: "Button \<Rightarrow> Button" where
  "Reset b = b\<lparr> m_bReset := True, m_bIsPressed := False, m_bWasPressed := False \<rparr>"

definition IsPressed :: "Button \<Rightarrow> bool" where
  "IsPressed b = m_bIsPressed b"

definition WasPressed :: "Button \<Rightarrow> bool \<times> Button" where
  "WasPressed b =
     (if m_bWasPressed b then (True, b\<lparr> m_bWasPressed := False \<rparr>) else (False, b))"

definition WasLongPressed :: "Button \<Rightarrow> bool \<times> Button" where
  "WasLongPressed b =
     (if m_bWasLongPressed b then (True, b\<lparr> m_bWasLongPressed := False \<rparr>) else (False, b))"

text \<open>
  The interrupt handler, run as one atomic step. \<open>millis\<close> is the clock at the interrupt
  and \<open>pinLevel\<close> the level \<^verbatim>\<open>digitalRead\<close> returns, which the handler reads only once
  the debounce test has passed.
\<close>

definition onInterrupt :: "ulong \<Rightarrow> int \<Rightarrow> Button \<Rightarrow> Button" where
  "onInterrupt millis pinLevel b =
     (let now = millis;
          timeSinceLastStateChange = now - lastStateChangeTime b
      in if timeSinceLastStateChange > debounceDelay then
           (let currentState = to_bool pinLevel
            in if currentState \<noteq> lastState b then
                 (let b1 = b\<lparr> lastStateChangeTime := now, lastState := currentState \<rparr>;
                      b2 = b1\<lparr> m_bIsPressed := (currentState = bIsPressed) \<rparr>;
                      b3 = (if currentState \<noteq> bIsPressed then
                              (let b' = b2\<lparr> m_bWasPressed := True \<rparr>
                               in if timeSinceLastStateChange > longPressDelay
                                  then b'\<lparr> m_bWasLongPressed := True \<rparr>
                                  else b'\<lparr> m_bWasLongPressed := False \<rparr>)
                            else b2\<lparr> m_bWasLongPressed := False \<rparr>)
                  in if m_bReset b3
                     then b3\<lparr> m_bReset := False,
                              m_bIsPressed := False,
                              m_bWasPressed := False,
                              m_bWasLongPressed := False \<rparr>
                     else b3)
               else b)
         else b)"

text \<open>
  The handler accepts a level change when both of its tests pass: more than the debounce
  delay has gone by since the last accepted change, and the level read differs from the
  last accepted one.
\<close>

definition accepted :: "Button \<Rightarrow> ulong \<Rightarrow> int \<Rightarrow> bool" where
  "accepted b millis pinLevel =
     (millis - lastStateChangeTime b > debounceDelay \<and> to_bool pinLevel \<noteq> lastState b)"

text \<open>The calls a sketch and the interrupt controller can make on a button.\<close>

datatype button_call =
    CallInterrupt ulong int
  | CallIsPressed
  | CallWasPressed
  | CallWasLongPressed
  | CallReset

fun call :: "button_call \<Rightarrow> Button \<Rightarrow> Button" where
  "call (CallInterrupt millis pinLevel) b = onInterrupt millis pinLevel b"
| "call CallIsPressed b = b"
| "call CallWasPressed b = snd (WasPressed b)"
| "call CallWasLongPressed b = snd (WasLongPressed b)"
| "call CallReset b = Reset b"

fun calls :: "button_call list \<Rightarrow> Button \<Rightarrow> Button" where
  "calls [] b = b"
| "calls (c # cs) b = calls cs (call c b)"

text \<open>No interrupt of the run is an accepted level change.\<close>

fun quiet :: "Button \<Rightarrow> button_call list \<Rightarrow> bool" where
  "quiet b [] = True"
| "quiet b (CallInterrupt millis pinLevel # cs) =
     (\<not> accepted b millis pinLevel \<and> quiet (onInterrupt millis pinLevel b) cs)"
| "quiet b (c # cs) = quiet (call c b) cs"

text \<open>No interrupt of the run is an accepted release.\<close>

fun no_release :: "Button \<Rightarrow> button_call list \<Rightarrow> bool" where
  "no_release b [] = True"
| "no_release b (CallInterrupt millis pinLevel # cs) =
     (\<not> (accepted b millis pinLevel \<and> to_bool pinLevel \<noteq> bIsPressed)
      \<and> no_release (onInterrupt millis pinLevel b) cs)"
| "no_release b (c # cs) = no_release (call c b) cs"

section \<open>Properties of the toggle timer\<close>

text \<open>
  C7. \<open>Stop\<close> clears the started flag and forces the state on: right after it,
  \<open>HasStarted\<close> returns false and \<open>IsOn\<close> returns true.
\<close>

theorem Stop_not_started_and_on:
  "m_bHasStarted (Stop t) = False \<and> m_bIsOn (Stop t) = True
   \<and> HasStarted (Stop t) = False \<and> IsOn (Stop t) = True"
  by (simp add: Stop_def HasStarted_def IsOn_def)

text \<open>
  C9. \<open>SetDuration\<close> writes the duration and nothing else: the state, the previously
  recorded state, the started flag and the reference timestamp keep their values. The
  next \<open>Update\<close> then compares the time gone by since the old reference timestamp with
  the new duration.
\<close>

theorem SetDuration_changes_only_duration:
  "SetDuration d t = t\<lparr> m_duration := d \<rparr>
   \<and> m_duration (SetDuration d t) = d
   \<and> m_bIsOn (SetDuration d t) = m_bIsOn t
   \<and> m_bPreviousState (SetDuration d t) = m_bPreviousState t
   \<and> m_bHasStarted (SetDuration d t) = m_bHasStarted t
   \<and> m_timer (SetDuration d t) = m_timer t
   \<and> Update now (SetDuration d t) =
       (if m_bHasStarted t then
          (if now - m_timer t > d
           then (SetDuration d t)\<lparr> m_timer := now, m_bIsOn := \<not> m_bIsOn t \<rparr>
           else SetDuration d t)
        else (SetDuration d t)\<lparr> m_bIsOn := True \<rparr>)"
  by (simp add: SetDuration_def Update_def)

theorem SetDuration_changes_only_duration_witness:
  "m_timer (SetDuration 100 (Start 40 (StateToggleTimer_new 500 0))) = 40
   \<and> IsOn (Update 140 (SetDuration 100 (Start 40 (StateToggleTimer_new 500 0))))
   \<and> \<not> IsOn (Update 141 (SetDuration 100 (Start 40 (StateToggleTimer_new 500 0))))"
  using SetDuration_changes_only_duration [of 100 "Start 40 (StateToggleTimer_new 500 0)" 141]
    SetDuration_changes_only_duration [of 100 "Start 40 (StateToggleTimer_new 500 0)" 140]
  by (simp add: IsOn_def SetDuration_def Start_def StateToggleTimer_new_def)

text \<open>\<open>Update\<close> never writes the previously recorded state.\<close>

lemma Update_previous: "m_bPreviousState (Update now t) = m_bPreviousState t"
  by (simp add: Update_def)

lemma Updates_previous: "m_bPreviousState (Updates nows t) = m_bPreviousState t"
  by (induction nows arbitrary: t) (simp_all add: Update_previous)

text \<open>
  C8. \<open>HasStateChanged\<close> returns whether the state differs from the previously recorded
  state and records the current state. A second call right after the first returns
  false, and so does a second call after any polling calls that leave the state as it
  was.
\<close>

theorem HasStateChanged_consumes:
  "HasStateChanged t = (m_bIsOn t \<noteq> m_bPreviousState t, t\<lparr> m_bPreviousState := m_bIsOn t \<rparr>)
   \<and> fst (HasStateChanged (snd (HasStateChanged t))) = False
   \<and> (m_bIsOn (Updates nows (snd (HasStateChanged t))) = m_bIsOn t \<longrightarrow>
        fst (HasStateChanged (Updates nows (snd (HasStateChanged t)))) = False)"
  by (auto simp add: HasStateChanged_def Updates_previous)

theorem HasStateChanged_consumes_witness:
  "fst (HasStateChanged (Start 0 (StateToggleTimer_new 500 0))) = True
   \<and> m_bIsOn (Updates [100, 200] (snd (HasStateChanged (Start 0 (StateToggleTimer_new 500 0)))))
       = m_bIsOn (Start 0 (StateToggleTimer_new 500 0))
   \<and> fst (HasStateChanged (Updates [100, 200]
            (snd (HasStateChanged (Start 0 (StateToggleTimer_new 500 0)))))) = False"
  using HasStateChanged_consumes [of "Start 0 (StateToggleTimer_new 500 0)" "[100, 200]"]
  by (simp add: HasStateChanged_def Start_def StateToggleTimer_new_def Update_def)

text \<open>While the timer is not started, a polling call turns the state on and keeps it on.\<close>

lemma Update_idle:
  "\<not> m_bHasStarted t \<Longrightarrow> m_bIsOn (Update now t) \<and> \<not> m_bHasStarted (Update now t)"
  by (simp add: Update_def)

lemma Updates_idle_on:
  "\<not> m_bHasStarted t \<Longrightarrow> m_bIsOn t \<Longrightarrow>
   m_bIsOn (Updates nows t) \<and> \<not> m_bHasStarted (Updates nows t)"
  by (induction nows arbitrary: t) (simp_all add: Update_idle)

text \<open>
  C4, as stated, fails right after construction: the constructor sets the state off, and
  \<open>IsOn\<close> returns false until the first \<open>Update\<close> or \<open>Stop\<close>.
\<close>

theorem IsOn_after_construction_counterexample:
  "\<not> HasStarted (StateToggleTimer_new 500 0) \<and> \<not> IsOn (StateToggleTimer_new 500 0)"
  by (simp add: IsOn_def HasStarted_def StateToggleTimer_new_def)

text \<open>
  C4, amended. A timer fresh from its constructor, with any duration and at any time, is
  not started and is off: \<open>IsOn\<close> returns false. For a timer that is not started,
  every \<open>Update\<close> forces the state on: after one call or more, with any times,
  \<open>IsOn\<close> returns true and the timer is still not started. This holds for the fresh
  timer too, from its first \<open>Update\<close> on.
\<close>

theorem not_started_Update_holds_on:
  "\<not> HasStarted (StateToggleTimer_new d millis)
   \<and> \<not> IsOn (StateToggleTimer_new d millis)
   \<and> IsOn (Updates (now # nows) (StateToggleTimer_new d millis))
   \<and> \<not> HasStarted (Updates (now # nows) (StateToggleTimer_new d millis))
   \<and> (\<not> HasStarted t \<longrightarrow>
        IsOn (Updates (now # nows) t) \<and> \<not> HasStarted (Updates (now # nows) t))"
proof -
  have idle: "IsOn (Updates (now # nows) u) \<and> \<not> HasStarted (Updates (now # nows) u)"
    if "\<not> HasStarted u" for u
    using that Updates_idle_on [of "Update now u" nows] Update_idle [of u now]
    by (simp add: IsOn_def HasStarted_def)
  have new: "\<not> HasStarted (StateToggleTimer_new d millis)
      \<and> \<not> IsOn (StateToggleTimer_new d millis)"
    by (simp add: IsOn_def HasStarted_def StateToggleTimer_new_def)
  show ?thesis
    using new idle [of "StateToggleTimer_new d millis"] idle [of t] by blast
qed

theorem not_started_Update_holds_on_witness:
  "\<not> HasStarted (StateToggleTimer_new 500 0)
   \<and> \<not> IsOn (StateToggleTimer_new 500 0)
   \<and> IsOn (Updates [1, 700, 5] (StateToggleTimer_new 500 0))
   \<and> \<not> HasStarted (Stop (Start 3 (StateToggleTimer_new 500 0)))
   \<and> IsOn (Updates [1, 700, 5] (Stop (Start 3 (StateToggleTimer_new 500 0))))
   \<and> \<not> HasStarted (Updates [1, 700, 5] (Stop (Start 3 (StateToggleTimer_new 500 0))))"
proof -
  have h: "\<not> HasStarted (Stop (Start 3 (StateToggleTimer_new 500 0)))"
    by (simp add: HasStarted_def Stop_def)
  show ?thesis
    using h not_started_Update_holds_on
      [of 500 0 1 "[700, 5]" "Stop (Start 3 (StateToggleTimer_new 500 0))"]
    by blast
qed

text \<open>A duration below the largest \<^verbatim>\<open>unsigned long\<close> is less than its successor.\<close>

lemma ulong_less_succ:
  fixes d :: ulong
  assumes "d \<noteq> - 1"
  shows "d < d + 1"
proof -
  have "unat d \<noteq> unat (- 1 :: ulong)"
    using assms by (simp add: word_unat_eq_iff)
  moreover have "unat d < 2 ^ LENGTH(32)"
    by (rule unsigned_less)
  ultimately have "unat d + unat (1 :: ulong) < 2 ^ LENGTH(32)"
    by (simp add: unsigned_minus_1_eq_mask mask_eq_exp_minus_1)
  then have "unat (d + 1) = unat d + unat (1 :: ulong)"
    by (rule unat_add_lem [THEN iffD1])
  then show ?thesis
    by (simp add: word_less_nat_alt)
qed

text \<open>
  C5, as stated, fails for the largest duration, \<open>0xFFFFFFFF\<close>: there \<open>t0 + D + 1\<close>
  wraps around to \<open>t0\<close>, no time has gone by more than \<open>D\<close>, and the state stays on.
\<close>

theorem Update_largest_duration_counterexample:
  "IsOn (Start 7 (StateToggleTimer_new 0xFFFFFFFF 0))
   \<and> IsOn (Update (7 + 0xFFFFFFFF + 1) (Start 7 (StateToggleTimer_new 0xFFFFFFFF 0)))"
  by (simp add: IsOn_def Update_def Start_def StateToggleTimer_new_def)

text \<open>
  C5, amended. For a duration \<open>D\<close> below the largest \<^verbatim>\<open>unsigned long\<close> and any
  \<open>t0\<close>, in wrap-around arithmetic: after \<open>Start\<close> at \<open>t0\<close> the state is on;
  \<open>Update (t0 + D + 1)\<close> turns it off and sets the reference timestamp to that time,
  and the same call again changes nothing; \<open>Update (t0 + 2 * D + 2)\<close> then turns it on
  again. For any started timer, \<open>Update now\<close> flips the state and sets the reference
  timestamp to \<open>now\<close> when \<open>now\<close> minus the reference timestamp exceeds the duration,
  and changes nothing otherwise.
\<close>

theorem Start_Update_periodic:
  assumes "m_duration t \<noteq> - 1"
  shows "IsOn (Start t0 t)
    \<and> Update (t0 + m_duration t + 1) (Start t0 t)
        = (Start t0 t)\<lparr> m_timer := t0 + m_duration t + 1, m_bIsOn := False \<rparr>
    \<and> Update (t0 + m_duration t + 1) (Update (t0 + m_duration t + 1) (Start t0 t))
        = Update (t0 + m_duration t + 1) (Start t0 t)
    \<and> Update (t0 + 2 * m_duration t + 2) (Update (t0 + m_duration t + 1) (Start t0 t))
        = (Start t0 t)\<lparr> m_timer := t0 + 2 * m_duration t + 2, m_bIsOn := True \<rparr>
    \<and> (HasStarted u \<longrightarrow>
         Update now u =
           (if now - m_timer u > m_duration u
            then u\<lparr> m_timer := now, m_bIsOn := \<not> m_bIsOn u \<rparr> else u))"
proof -
  let ?D = "m_duration t"
  have lt: "?D < ?D + 1"
    using assms by (rule ulong_less_succ)
  have e2: "t0 + 2 * ?D + 2 - (t0 + ?D + 1) = ?D + 1"
    by simp
  have c1: "IsOn (Start t0 t)"
    by (simp add: IsOn_def Start_def)
  have c2: "Update (t0 + ?D + 1) (Start t0 t)
        = (Start t0 t)\<lparr> m_timer := t0 + ?D + 1, m_bIsOn := False \<rparr>"
    using lt by (simp add: Update_def Start_def)
  have c3: "Update (t0 + ?D + 1) ((Start t0 t)\<lparr> m_timer := t0 + ?D + 1, m_bIsOn := False \<rparr>)
        = (Start t0 t)\<lparr> m_timer := t0 + ?D + 1, m_bIsOn := False \<rparr>"
    by (simp add: Update_def Start_def)
  have c4: "Update (t0 + 2 * ?D + 2) ((Start t0 t)\<lparr> m_timer := t0 + ?D + 1, m_bIsOn := False \<rparr>)
        = (Start t0 t)\<lparr> m_timer := t0 + 2 * ?D + 2, m_bIsOn := True \<rparr>"
    using lt by (simp add: Update_def Start_def e2)
  have c5: "HasStarted u \<longrightarrow>
         Update now u =
           (if now - m_timer u > m_duration u
            then u\<lparr> m_timer := now, m_bIsOn := \<not> m_bIsOn u \<rparr> else u)"
    by (simp add: Update_def HasStarted_def)
  show ?thesis
    using c1 c2 c3 c4 c5 by simp
qed

theorem Start_Update_periodic_witness:
  "m_duration (StateToggleTimer_new 500 0) \<noteq> - 1
   \<and> HasStarted (Start 4294967000 (StateToggleTimer_new 500 0))
   \<and> IsOn (Start 4294967000 (StateToggleTimer_new 500 0))
   \<and> \<not> IsOn (Update 205 (Start 4294967000 (StateToggleTimer_new 500 0)))
   \<and> m_timer (Update 205 (Start 4294967000 (StateToggleTimer_new 500 0))) = 205
   \<and> IsOn (Update 706 (Update 205 (Start 4294967000 (StateToggleTimer_new 500 0))))
   \<and> Update 204 (Start 4294967000 (StateToggleTimer_new 500 0))
       = Start 4294967000 (StateToggleTimer_new 500 0)"
proof -
  let ?t = "StateToggleTimer_new 500 0"
  have h: "m_duration ?t \<noteq> - 1"
    by (simp add: StateToggleTimer_new_def)
  have s: "HasStarted (Start 4294967000 ?t)"
    by (simp add: HasStarted_def Start_def)
  show ?thesis
    using h s Start_Update_periodic [OF h, of 4294967000 "Start 4294967000 ?t" 204]
    by (simp add: IsOn_def Update_def Start_def StateToggleTimer_new_def)
qed

section \<open>Properties of the button\<close>

text \<open>What the handler does with a level change it does not accept, and with one it accepts.\<close>

lemma onInterrupt_rejected:
  "\<not> accepted b millis pinLevel \<Longrightarrow> onInterrupt millis pinLevel b = b"
  by (auto simp add: accepted_def onInterrupt_def Let_def)

lemma onInterrupt_accepted:
  "accepted b millis pinLevel \<Longrightarrow>
   onInterrupt millis pinLevel b =
     (if m_bReset b
      then b\<lparr> lastStateChangeTime := millis, lastState := to_bool pinLevel,
              m_bIsPressed := False, m_bWasPressed := False, m_bWasLongPressed := False,
              m_bReset := False \<rparr>
      else if to_bool pinLevel \<noteq> bIsPressed
      then b\<lparr> lastStateChangeTime := millis, lastState := to_bool pinLevel,
              m_bIsPressed := False, m_bWasPressed := True,
              m_bWasLongPressed := (millis - lastStateChangeTime b > longPressDelay) \<rparr>
      else b\<lparr> lastStateChangeTime := millis, lastState := to_bool pinLevel,
              m_bIsPressed := True, m_bWasLongPressed := False \<rparr>)"
  by (auto simp add: accepted_def onInterrupt_def Let_def)

text \<open>
  C1. When the time gone by since the last accepted change, as the handler computes it,
  does not exceed the debounce delay of 50 ms, the handler leaves the whole button as it
  was, whatever the level of the pin: the accepted level, the time of the last accepted
  change, the pressed level, both latches and the pending reset.
\<close>

theorem onInterrupt_debounce_ignores:
  assumes "millis - lastStateChangeTime b \<le> debounceDelay"
  shows "onInterrupt millis pinLevel b = b"
  using assms by (simp add: onInterrupt_def Let_def not_less [symmetric])

theorem onInterrupt_debounce_ignores_witness:
  "1050 - lastStateChangeTime (Button_new 2 1000 False) \<le> debounceDelay
   \<and> to_bool LOW \<noteq> lastState (Button_new 2 1000 False)
   \<and> onInterrupt 1050 LOW (Button_new 2 1000 False) = Button_new 2 1000 False"
proof -
  have h: "1050 - lastStateChangeTime (Button_new 2 1000 False) \<le> debounceDelay"
    by (simp add: Button_new_def debounceDelay_def)
  show ?thesis
    using h onInterrupt_debounce_ignores [OF h, of LOW]
    by (simp add: Button_new_def bIsPressed_def to_bool_def LOW_def)
qed

text \<open>
  C2, as stated, fails while a reset is pending: the button is pressed at 100 ms,
  \<open>Reset\<close> is called, and the release at 2100 ms is accepted 2000 ms after the press,
  yet the handler leaves both latches false.
\<close>

theorem release_with_pending_reset_counterexample:
  "accepted (Reset (onInterrupt 100 LOW (Button_new 2 0 False))) 2100 HIGH
   \<and> to_bool HIGH \<noteq> bIsPressed
   \<and> 2100 - lastStateChangeTime (Reset (onInterrupt 100 LOW (Button_new 2 0 False)))
       > longPressDelay
   \<and> \<not> m_bWasPressed
        (onInterrupt 2100 HIGH (Reset (onInterrupt 100 LOW (Button_new 2 0 False))))
   \<and> \<not> m_bWasLongPressed
        (onInterrupt 2100 HIGH (Reset (onInterrupt 100 LOW (Button_new 2 0 False))))"
  by (simp add: accepted_def onInterrupt_def Reset_def Button_new_def bIsPressed_def to_bool_def
      LOW_def HIGH_def debounceDelay_def longPressDelay_def Let_def WasPressed_def WasLongPressed_def)

text \<open>
  C2, amended. When an accepted level change is a release and no reset is pending, the
  handler sets the was-pressed latch, and sets the was-long-pressed latch exactly when
  the time gone by since the last accepted change exceeds the long-press delay of
  1000 ms; at 1000 ms or less the latch is false.
\<close>

theorem release_sets_latches:
  assumes "accepted b millis pinLevel"
    and "to_bool pinLevel \<noteq> bIsPressed"
    and "\<not> m_bReset b"
  shows "m_bWasPressed (onInterrupt millis pinLevel b)
    \<and> m_bWasLongPressed (onInterrupt millis pinLevel b)
        = (millis - lastStateChangeTime b > longPressDelay)"
  using assms by (simp add: onInterrupt_accepted)

theorem release_sets_latches_witness:
  "accepted (onInterrupt 100 LOW (Button_new 2 0 True)) 1101 HIGH
   \<and> to_bool HIGH \<noteq> bIsPressed
   \<and> \<not> m_bReset (onInterrupt 100 LOW (Button_new 2 0 True))
   \<and> m_bWasPressed (onInterrupt 1101 HIGH (onInterrupt 100 LOW (Button_new 2 0 True)))
   \<and> m_bWasLongPressed (onInterrupt 1101 HIGH (onInterrupt 100 LOW (Button_new 2 0 True)))
   \<and> m_bWasPressed (onInterrupt 1100 HIGH (onInterrupt 100 LOW (Button_new 2 0 True)))
   \<and> \<not> m_bWasLongPressed (onInterrupt 1100 HIGH (onInterrupt 100 LOW (Button_new 2 0 True)))"
proof -
  let ?b = "onInterrupt 100 LOW (Button_new 2 0 True)"
  have a1: "accepted ?b 1101 HIGH" and a2: "accepted ?b 1100 HIGH"
    by (simp_all add: accepted_def onInterrupt_def Reset_def Button_new_def bIsPressed_def to_bool_def
      LOW_def HIGH_def debounceDelay_def longPressDelay_def Let_def WasPressed_def WasLongPressed_def)
  have r: "to_bool HIGH \<noteq> bIsPressed"
    by (simp add: bIsPressed_def to_bool_def LOW_def HIGH_def)
  have n: "\<not> m_bReset ?b"
    by (simp add: accepted_def onInterrupt_def Reset_def Button_new_def bIsPressed_def to_bool_def
      LOW_def HIGH_def debounceDelay_def longPressDelay_def Let_def WasPressed_def WasLongPressed_def)
  have t: "lastStateChangeTime ?b = 100"
    by (simp add: accepted_def onInterrupt_def Reset_def Button_new_def bIsPressed_def to_bool_def
      LOW_def HIGH_def debounceDelay_def longPressDelay_def Let_def WasPressed_def WasLongPressed_def)
  show ?thesis
    using a1 r n release_sets_latches [OF a1 r n] release_sets_latches [OF a2 r n]
    by (simp add: t longPressDelay_def)
qed

text \<open>A run with no accepted level change, one call at a time.\<close>

lemma quiet_Cons: "quiet b (c # cs) \<Longrightarrow> quiet b [c] \<and> quiet (call c b) cs"
  by (cases c) simp_all

lemma call_quiet_lastState:
  "quiet b [c] \<Longrightarrow>
   lastState (call c b) = lastState b \<and> lastStateChangeTime (call c b) = lastStateChangeTime b"
  by (cases c) (simp_all add: onInterrupt_rejected WasPressed_def WasLongPressed_def Reset_def)

lemma call_quiet_reset:
  "m_bReset b \<Longrightarrow> quiet b [c] \<Longrightarrow> m_bReset (call c b)"
  by (cases c) (simp_all add: onInterrupt_rejected WasPressed_def WasLongPressed_def Reset_def)

lemma call_quiet_no_reset:
  "\<not> m_bReset b \<Longrightarrow> quiet b [c] \<Longrightarrow> c \<noteq> CallReset \<Longrightarrow> \<not> m_bReset (call c b)"
  by (cases c) (simp_all add: onInterrupt_rejected WasPressed_def WasLongPressed_def)

lemma call_quiet_not_pressed:
  "\<not> m_bWasPressed b \<Longrightarrow> quiet b [c] \<Longrightarrow> \<not> m_bWasPressed (call c b)"
  by (cases c) (simp_all add: onInterrupt_rejected WasPressed_def WasLongPressed_def Reset_def)

lemma call_quiet_long:
  "quiet b [c] \<Longrightarrow> c \<noteq> CallWasLongPressed \<Longrightarrow>
   m_bWasLongPressed (call c b) = m_bWasLongPressed b"
  by (cases c) (simp_all add: onInterrupt_rejected WasPressed_def Reset_def)

text \<open>What a run with no accepted level change keeps.\<close>

lemma calls_quiet_lastState:
  "quiet b cs \<Longrightarrow>
   lastState (calls cs b) = lastState b \<and> lastStateChangeTime (calls cs b) = lastStateChangeTime b"
proof (induction cs arbitrary: b)
  case Nil
  then show ?case by simp
next
  case (Cons c cs)
  from Cons.prems have q: "quiet b [c]" and qs: "quiet (call c b) cs"
    using quiet_Cons by blast+
  show ?case
    using call_quiet_lastState [OF q] Cons.IH [OF qs] by simp
qed

lemma calls_quiet_reset:
  "m_bReset b \<Longrightarrow> quiet b cs \<Longrightarrow> m_bReset (calls cs b)"
proof (induction cs arbitrary: b)
  case Nil
  then show ?case by simp
next
  case (Cons c cs)
  from Cons.prems(2) have q: "quiet b [c]" and qs: "quiet (call c b) cs"
    using quiet_Cons by blast+
  from Cons.prems(1) q have "m_bReset (call c b)"
    by (rule call_quiet_reset)
  then show ?case
    using qs Cons.IH by simp
qed

lemma calls_quiet_no_reset:
  "\<not> m_bReset b \<Longrightarrow> quiet b cs \<Longrightarrow> CallReset \<notin> set cs \<Longrightarrow> \<not> m_bReset (calls cs b)"
proof (induction cs arbitrary: b)
  case Nil
  then show ?case by simp
next
  case (Cons c cs)
  from Cons.prems(2) have q: "quiet b [c]" and qs: "quiet (call c b) cs"
    using quiet_Cons by blast+
  from Cons.prems(3) have c: "c \<noteq> CallReset" and cs: "CallReset \<notin> set cs"
    by auto
  have "\<not> m_bReset (call c b)"
    using Cons.prems(1) q c by (rule call_quiet_no_reset)
  then show ?case
    using qs cs Cons.IH by simp
qed

lemma calls_quiet_not_pressed:
  "\<not> m_bWasPressed b \<Longrightarrow> quiet b cs \<Longrightarrow> \<not> m_bWasPressed (calls cs b)"
proof (induction cs arbitrary: b)
  case Nil
  then show ?case by simp
next
  case (Cons c cs)
  from Cons.prems(2) have q: "quiet b [c]" and qs: "quiet (call c b) cs"
    using quiet_Cons by blast+
  have "\<not> m_bWasPressed (call c b)"
    using Cons.prems(1) q by (rule call_quiet_not_pressed)
  then show ?case
    using qs Cons.IH by simp
qed

lemma calls_quiet_long:
  "quiet b cs \<Longrightarrow> CallWasLongPressed \<notin> set cs \<Longrightarrow>
   m_bWasLongPressed (calls cs b) = m_bWasLongPressed b"
proof (induction cs arbitrary: b)
  case Nil
  then show ?case by simp
next
  case (Cons c cs)
  from Cons.prems(1) have q: "quiet b [c]" and qs: "quiet (call c b) cs"
    using quiet_Cons by blast+
  from Cons.prems(2) have c: "c \<noteq> CallWasLongPressed" and cs: "CallWasLongPressed \<notin> set cs"
    by auto
  show ?case
    using call_quiet_long [OF q c] Cons.IH [OF qs cs] by simp
qed

text \<open>
  C3. \<open>Reset\<close> clears the pressed level and the was-pressed latch at once and arms the
  pending reset. After any calls that hold no accepted level change, the next accepted
  level change, press or release, short or long, leaves the pressed level and both
  latches false and clears the pending reset.
\<close>

theorem Reset_clears_at_next_accepted:
  assumes "quiet (Reset b) cs"
    and "accepted (calls cs (Reset b)) millis pinLevel"
  shows "\<not> m_bIsPressed (Reset b) \<and> \<not> m_bWasPressed (Reset b) \<and> m_bReset (Reset b)
    \<and> \<not> m_bIsPressed (onInterrupt millis pinLevel (calls cs (Reset b)))
    \<and> \<not> m_bWasPressed (onInterrupt millis pinLevel (calls cs (Reset b)))
    \<and> \<not> m_bWasLongPressed (onInterrupt millis pinLevel (calls cs (Reset b)))
    \<and> \<not> m_bReset (onInterrupt millis pinLevel (calls cs (Reset b)))"
proof -
  have r: "m_bReset (Reset b)"
    by (simp add: Reset_def)
  then have "m_bReset (calls cs (Reset b))"
    using assms(1) by (rule calls_quiet_reset)
  then show ?thesis
    using assms(2) by (simp add: onInterrupt_accepted) (simp add: Reset_def)
qed

theorem Reset_clears_at_next_accepted_witness:
  "quiet (Reset (onInterrupt 100 LOW (Button_new 2 0 False)))
     [CallInterrupt 120 HIGH, CallWasPressed, CallIsPressed]
   \<and> accepted (calls [CallInterrupt 120 HIGH, CallWasPressed, CallIsPressed]
        (Reset (onInterrupt 100 LOW (Button_new 2 0 False)))) 2100 HIGH
   \<and> m_bReset (Reset (onInterrupt 100 LOW (Button_new 2 0 False)))
   \<and> \<not> m_bWasPressed (onInterrupt 2100 HIGH
        (calls [CallInterrupt 120 HIGH, CallWasPressed, CallIsPressed]
          (Reset (onInterrupt 100 LOW (Button_new 2 0 False)))))
   \<and> \<not> m_bReset (onInterrupt 2100 HIGH
        (calls [CallInterrupt 120 HIGH, CallWasPressed, CallIsPressed]
          (Reset (onInterrupt 100 LOW (Button_new 2 0 False)))))"
proof -
  let ?b = "onInterrupt 100 LOW (Button_new 2 0 False)"
  let ?cs = "[CallInterrupt 120 HIGH, CallWasPressed, CallIsPressed]"
  have q: "quiet (Reset ?b) ?cs"
    by (simp add: accepted_def onInterrupt_def Reset_def Button_new_def bIsPressed_def to_bool_def
      LOW_def HIGH_def debounceDelay_def longPressDelay_def Let_def WasPressed_def WasLongPressed_def)
  have a: "accepted (calls ?cs (Reset ?b)) 2100 HIGH"
    by (simp add: accepted_def onInterrupt_def Reset_def Button_new_def bIsPressed_def to_bool_def
      LOW_def HIGH_def debounceDelay_def longPressDelay_def Let_def WasPressed_def WasLongPressed_def)
  show ?thesis
    using q a Reset_clears_at_next_accepted [OF q a] by simp
qed

text \<open>
  With no reset pending, a set was-pressed latch stays set through every call but
  \<open>Reset\<close> and \<open>WasPressed\<close>, accepted level changes included.
\<close>

lemma call_keeps_pressed:
  assumes "m_bWasPressed b \<and> \<not> m_bReset b"
    and "c \<noteq> CallReset" and "c \<noteq> CallWasPressed"
  shows "m_bWasPressed (call c b) \<and> \<not> m_bReset (call c b)"
proof (cases c)
  case (CallInterrupt millis pinLevel)
  show ?thesis
  proof (cases "accepted b millis pinLevel")
    case True
    then show ?thesis
      using assms(1) CallInterrupt by (simp add: onInterrupt_accepted)
  next
    case False
    then show ?thesis
      using assms(1) CallInterrupt by (simp add: onInterrupt_rejected)
  qed
qed (insert assms, simp_all add: WasLongPressed_def)

lemma calls_keep_pressed:
  "m_bWasPressed b \<and> \<not> m_bReset b \<Longrightarrow> CallReset \<notin> set cs \<Longrightarrow>
   CallWasPressed \<notin> set cs \<Longrightarrow> m_bWasPressed (calls cs b) \<and> \<not> m_bReset (calls cs b)"
proof (induction cs arbitrary: b)
  case Nil
  then show ?case by simp
next
  case (Cons c cs)
  from Cons.prems(2,3) have c: "c \<noteq> CallReset" "c \<noteq> CallWasPressed"
    and cs: "CallReset \<notin> set cs" "CallWasPressed \<notin> set cs"
    by auto
  have "m_bWasPressed (call c b) \<and> \<not> m_bReset (call c b)"
    using Cons.prems(1) c by (rule call_keeps_pressed)
  then show ?case
    using cs Cons.IH by simp
qed

text \<open>A cleared was-pressed latch stays cleared until an accepted release.\<close>

lemma no_release_Cons:
  "no_release b (c # cs) \<Longrightarrow> no_release b [c] \<and> no_release (call c b) cs"
  by (cases c) simp_all

lemma call_no_release_not_pressed:
  assumes "\<not> m_bWasPressed b" and "no_release b [c]"
  shows "\<not> m_bWasPressed (call c b)"
proof (cases c)
  case (CallInterrupt millis pinLevel)
  show ?thesis
  proof (cases "accepted b millis pinLevel")
    case True
    moreover from True assms(2) CallInterrupt have "to_bool pinLevel = bIsPressed"
      by simp
    ultimately show ?thesis
      using assms(1) CallInterrupt by (simp add: onInterrupt_accepted)
  next
    case False
    then show ?thesis
      using assms(1) CallInterrupt by (simp add: onInterrupt_rejected)
  qed
qed (insert assms, simp_all add: WasPressed_def WasLongPressed_def Reset_def)

lemma calls_no_release_not_pressed:
  "\<not> m_bWasPressed b \<Longrightarrow> no_release b cs \<Longrightarrow> \<not> m_bWasPressed (calls cs b)"
proof (induction cs arbitrary: b)
  case Nil
  then show ?case by simp
next
  case (Cons c cs)
  from Cons.prems(2) have q: "no_release b [c]" and qs: "no_release (call c b) cs"
    using no_release_Cons by blast+
  have "\<not> m_bWasPressed (call c b)"
    using Cons.prems(1) q by (rule call_no_release_not_pressed)
  then show ?case
    using qs Cons.IH by simp
qed

text \<open>
  C6, as stated, fails when \<open>Reset\<close> is called between the press and the release: the
  press at 100 ms is accepted, \<open>Reset\<close> is called, the release at 2100 ms is accepted,
  and the first \<open>WasPressed\<close> after it returns false.
\<close>

theorem press_Reset_release_counterexample:
  "accepted (Button_new 2 0 False) 100 LOW
   \<and> to_bool LOW = bIsPressed
   \<and> (2100 :: ulong) - 100 > debounceDelay
   \<and> to_bool HIGH \<noteq> bIsPressed
   \<and> accepted (Reset (onInterrupt 100 LOW (Button_new 2 0 False))) 2100 HIGH
   \<and> \<not> fst (WasPressed
        (onInterrupt 2100 HIGH (Reset (onInterrupt 100 LOW (Button_new 2 0 False)))))"
  by (simp add: accepted_def onInterrupt_def Reset_def Button_new_def bIsPressed_def to_bool_def
      LOW_def HIGH_def debounceDelay_def longPressDelay_def Let_def WasPressed_def WasLongPressed_def)

text \<open>
  C6, amended. An accepted press edge, then any calls with no accepted level change and
  no \<open>Reset\<close>, then a release edge more than the debounce delay after the press: the
  release is accepted. The first \<open>WasPressed\<close> after it, with no \<open>Reset\<close> between
  the release and that read and whatever other calls and level changes come between,
  returns true and clears the latch. A second \<open>WasPressed\<close>, at once or after any calls
  that hold no accepted release, returns false. \<open>WasLongPressed\<close> returns its latch
  and clears it in the same way, so a second call returns false.
\<close>

theorem press_release_read_once:
  assumes press: "accepted b t1 p1" "to_bool p1 = bIsPressed"
    and between: "quiet (onInterrupt t1 p1 b) cs" "CallReset \<notin> set cs"
    and release: "t2 - t1 > debounceDelay" "to_bool p2 \<noteq> bIsPressed"
    and before_read: "CallReset \<notin> set es" "CallWasPressed \<notin> set es"
  shows "accepted (calls cs (onInterrupt t1 p1 b)) t2 p2
    \<and> fst (WasPressed (calls es (onInterrupt t2 p2 (calls cs (onInterrupt t1 p1 b)))))
    \<and> \<not> m_bWasPressed
        (snd (WasPressed (calls es (onInterrupt t2 p2 (calls cs (onInterrupt t1 p1 b))))))
    \<and> \<not> fst (WasPressed
        (snd (WasPressed (calls es (onInterrupt t2 p2 (calls cs (onInterrupt t1 p1 b)))))))
    \<and> (no_release
         (snd (WasPressed (calls es (onInterrupt t2 p2 (calls cs (onInterrupt t1 p1 b)))))) ds
        \<longrightarrow> \<not> fst (WasPressed (calls ds
              (snd (WasPressed
                (calls es (onInterrupt t2 p2 (calls cs (onInterrupt t1 p1 b)))))))))
    \<and> fst (WasLongPressed c) = m_bWasLongPressed c
    \<and> \<not> m_bWasLongPressed (snd (WasLongPressed c))
    \<and> \<not> fst (WasLongPressed (snd (WasLongPressed c)))"
proof -
  let ?b1 = "onInterrupt t1 p1 b"
  let ?b1' = "calls cs ?b1"
  let ?b2 = "onInterrupt t2 p2 ?b1'"
  let ?b2' = "calls es ?b2"
  let ?b3 = "snd (WasPressed ?b2')"
  have b1: "\<not> m_bReset ?b1 \<and> lastState ?b1 = bIsPressed \<and> lastStateChangeTime ?b1 = t1"
    using press by (simp add: onInterrupt_accepted)
  then have b1': "\<not> m_bReset ?b1' \<and> lastState ?b1' = bIsPressed \<and> lastStateChangeTime ?b1' = t1"
    using between calls_quiet_no_reset [of ?b1 cs] calls_quiet_lastState [of ?b1 cs] by simp
  then have acc: "accepted ?b1' t2 p2"
    using release by (simp add: accepted_def)
  then have b2: "m_bWasPressed ?b2 \<and> \<not> m_bReset ?b2"
    using b1' release(2) by (simp add: onInterrupt_accepted)
  then have b2': "m_bWasPressed ?b2'"
    using before_read calls_keep_pressed [of ?b2 es] by simp
  then have r1: "fst (WasPressed ?b2')" and b3: "\<not> m_bWasPressed ?b3"
    by (simp_all add: WasPressed_def)
  from b3 have r2: "\<not> fst (WasPressed ?b3)"
    by (simp add: WasPressed_def)
  have r3: "no_release ?b3 ds \<longrightarrow> \<not> fst (WasPressed (calls ds ?b3))"
    using b3 calls_no_release_not_pressed [of ?b3 ds] by (simp add: WasPressed_def)
  have l: "fst (WasLongPressed c) = m_bWasLongPressed c
    \<and> \<not> m_bWasLongPressed (snd (WasLongPressed c))
    \<and> \<not> fst (WasLongPressed (snd (WasLongPressed c)))"
    by (simp add: WasLongPressed_def)
  show ?thesis
    using acc r1 b3 r2 r3 l by blast
qed

theorem press_release_read_once_witness:
  "accepted (Button_new 2 0 True) 100 LOW
   \<and> to_bool LOW = bIsPressed
   \<and> quiet (onInterrupt 100 LOW (Button_new 2 0 True)) [CallInterrupt 110 HIGH, CallIsPressed]
   \<and> CallReset \<notin> set [CallInterrupt 110 HIGH, CallIsPressed]
   \<and> (300 :: ulong) - 100 > debounceDelay
   \<and> to_bool HIGH \<noteq> bIsPressed
   \<and> CallReset \<notin> set [CallIsPressed, CallInterrupt 400 LOW, CallWasLongPressed]
   \<and> CallWasPressed \<notin> set [CallIsPressed, CallInterrupt 400 LOW, CallWasLongPressed]
   \<and> accepted (onInterrupt 300 HIGH
        (calls [CallInterrupt 110 HIGH, CallIsPressed] (onInterrupt 100 LOW (Button_new 2 0 True))))
        400 LOW
   \<and> no_release (snd (WasPressed (calls [CallIsPressed, CallInterrupt 400 LOW, CallWasLongPressed]
        (onInterrupt 300 HIGH
          (calls [CallInterrupt 110 HIGH, CallIsPressed]
            (onInterrupt 100 LOW (Button_new 2 0 True)))))))
        [CallReset, CallInterrupt 420 HIGH, CallIsPressed]
   \<and> fst (WasPressed (calls [CallIsPressed, CallInterrupt 400 LOW, CallWasLongPressed]
        (onInterrupt 300 HIGH
          (calls [CallInterrupt 110 HIGH, CallIsPressed]
            (onInterrupt 100 LOW (Button_new 2 0 True))))))
   \<and> \<not> fst (WasPressed (snd (WasPressed
        (calls [CallIsPressed, CallInterrupt 400 LOW, CallWasLongPressed]
          (onInterrupt 300 HIGH
            (calls [CallInterrupt 110 HIGH, CallIsPressed]
              (onInterrupt 100 LOW (Button_new 2 0 True))))))))
   \<and> \<not> fst (WasPressed (calls [CallReset, CallInterrupt 420 HIGH, CallIsPressed]
        (snd (WasPressed (calls [CallIsPressed, CallInterrupt 400 LOW, CallWasLongPressed]
          (onInterrupt 300 HIGH
            (calls [CallInterrupt 110 HIGH, CallIsPressed]
              (onInterrupt 100 LOW (Button_new 2 0 True)))))))))"
proof -
  let ?b = "Button_new 2 0 True"
  let ?cs = "[CallInterrupt 110 HIGH, CallIsPressed]"
  let ?es = "[CallIsPressed, CallInterrupt 400 LOW, CallWasLongPressed]"
  let ?ds = "[CallReset, CallInterrupt 420 HIGH, CallIsPressed]"
  have p1: "accepted ?b 100 LOW" and p2: "to_bool LOW = bIsPressed"
    by (simp_all add: accepted_def onInterrupt_def Reset_def Button_new_def bIsPressed_def to_bool_def
      LOW_def HIGH_def debounceDelay_def longPressDelay_def Let_def WasPressed_def WasLongPressed_def)
  have c1: "quiet (onInterrupt 100 LOW ?b) ?cs" and c2: "CallReset \<notin> set ?cs"
    by (simp_all add: accepted_def onInterrupt_def Reset_def Button_new_def bIsPressed_def to_bool_def
      LOW_def HIGH_def debounceDelay_def longPressDelay_def Let_def WasPressed_def WasLongPressed_def)
  have r1: "(300 :: ulong) - 100 > debounceDelay" and r2: "to_bool HIGH \<noteq> bIsPressed"
    by (simp_all add: bIsPressed_def to_bool_def LOW_def HIGH_def debounceDelay_def)
  have e1: "CallReset \<notin> set ?es" and e2: "CallWasPressed \<notin> set ?es"
    by simp_all
  have a: "accepted (onInterrupt 300 HIGH (calls ?cs (onInterrupt 100 LOW ?b))) 400 LOW"
    by (simp add: accepted_def onInterrupt_def Reset_def Button_new_def bIsPressed_def to_bool_def
      LOW_def HIGH_def debounceDelay_def longPressDelay_def Let_def WasPressed_def WasLongPressed_def)
  have d: "no_release (snd (WasPressed (calls ?es
      (onInterrupt 300 HIGH (calls ?cs (onInterrupt 100 LOW ?b)))))) ?ds"
    by (simp add: accepted_def onInterrupt_def Reset_def Button_new_def bIsPressed_def to_bool_def
      LOW_def HIGH_def debounceDelay_def longPressDelay_def Let_def WasPressed_def WasLongPressed_def)
  show ?thesis
    using p1 p2 c1 c2 r1 r2 e1 e2 a d
      press_release_read_once [OF p1 p2 c1 c2 r1 r2 e1 e2, of ?ds ?b]
    by simp
qed

text \<open>
  C10. \<open>Reset\<close> does not write the was-long-pressed latch. If the latch is set before
  \<open>Reset\<close>, then after \<open>Reset\<close> and any calls that hold no accepted level change and
  no read of the latch, \<open>WasLongPressed\<close> still returns true.
\<close>

theorem Reset_keeps_long_press_latch:
  "m_bWasLongPressed (Reset b) = m_bWasLongPressed b
   \<and> (m_bWasLongPressed b \<and> quiet (Reset b) cs \<and> CallWasLongPressed \<notin> set cs \<longrightarrow>
        fst (WasLongPressed (calls cs (Reset b))))"
proof -
  have r: "m_bWasLongPressed (Reset b) = m_bWasLongPressed b"
    by (simp add: Reset_def)
  have "fst (WasLongPressed (calls cs (Reset b)))"
    if "m_bWasLongPressed b" "quiet (Reset b) cs" "CallWasLongPressed \<notin> set cs"
    using that r calls_quiet_long [of "Reset b" cs] by (simp add: WasLongPressed_def)
  then show ?thesis
    using r by blast
qed

theorem Reset_keeps_long_press_latch_witness:
  "m_bWasLongPressed (onInterrupt 1200 HIGH (onInterrupt 100 LOW (Button_new 2 0 False)))
   \<and> quiet (Reset (onInterrupt 1200 HIGH (onInterrupt 100 LOW (Button_new 2 0 False))))
        [CallInterrupt 1230 LOW, CallIsPressed, CallWasPressed]
   \<and> CallWasLongPressed \<notin> set [CallInterrupt 1230 LOW, CallIsPressed, CallWasPressed]
   \<and> fst (WasLongPressed (calls [CallInterrupt 1230 LOW, CallIsPressed, CallWasPressed]
        (Reset (onInterrupt 1200 HIGH (onInterrupt 100 LOW (Button_new 2 0 False))))))"
proof -
  let ?b = "onInterrupt 1200 HIGH (onInterrupt 100 LOW (Button_new 2 0 False))"
  let ?cs = "[CallInterrupt 1230 LOW, CallIsPressed, CallWasPressed]"
  have l: "m_bWasLongPressed ?b"
    by (simp add: accepted_def onInterrupt_def Reset_def Button_new_def bIsPressed_def to_bool_def
      LOW_def HIGH_def debounceDelay_def longPressDelay_def Let_def WasPressed_def WasLongPressed_def)
  have q: "quiet (Reset ?b) ?cs"
    by (simp add: accepted_def onInterrupt_def Reset_def Button_new_def bIsPressed_def to_bool_def
      LOW_def HIGH_def debounceDelay_def longPressDelay_def Let_def WasPressed_def WasLongPressed_def)
  have n: "CallWasLongPressed \<notin> set ?cs"
    by simp
  show ?thesis
    using l q n Reset_keeps_long_press_latch [of ?b ?cs] by blast
qed

end
